theory Spec2Isabelle
  imports Main "HOL-Library.Word"
begin

section \<open>TinyG2 extended IO (xio.cpp)\<close>

subsection \<open>Machine types and constants\<close>

text \<open>
  The firmware targets 32-bit ARM (the source guards its pin code with \<open>__ARM\<close>):
  \<open>uint8_t\<close> and \<open>uint16_t\<close> have their fixed widths, \<open>size_t\<close> is 32 bits wide,
  \<open>int\<close> is wide enough for every value \<open>read_char\<close> returns and is modelled
  as \<open>int\<close>.
\<close>

type_synonym uint8_t = "8 word"
type_synonym uint16_t = "16 word"
type_synonym size_t = "32 word"

text \<open>The status codes of \<open>stat_t\<close> that xio.cpp and its documentation name.\<close>

datatype stat_t =
    STAT_OK
  | STAT_EAGAIN
  | STAT_EOF
  | STAT_BUFFER_FULL
  | STAT_FILE_SIZE_EXCEEDED
  | STAT_XIO_ASSERTION_FAILURE

text \<open>
  The ASCII codes \<open>NUL\<close>, \<open>LF\<close> and \<open>CR\<close>, and \<open>_FDEV_ERR\<close> (here \<open>FDEV_ERR\<close>),
  which the comment of \<open>read_char\<close> gives as -1. The comparisons \<open>c == LF\<close> and
  \<open>c == CR\<close> of the source are on the \<open>int\<close> value, the store of \<open>NUL\<close> is of a
  byte.
\<close>

definition NUL :: uint8_t where
  "NUL = 0"

definition LF :: int where
  "LF = 10"

definition CR :: int where
  "CR = 13"

definition FDEV_ERR :: int where
  "FDEV_ERR = - 1"

subsection \<open>The byte source\<close>

text \<open>
  Modelled from the spec: \<open>SerialUSB.readByte\<close> belongs to the hardware transport, which is
  not part of xio.cpp. It is the spec's byte source primitive, a non-blocking single-byte
  read returning either a byte value or the distinguished no-data value. The state of the
  device is the queue of bytes that have arrived and were not read yet.
\<close>

type_synonym usb_queue = "uint8_t list"

definition readByte :: "usb_queue \<Rightarrow> int \<times> usb_queue" where
  "readByte q = (case q of [] \<Rightarrow> (- 1, []) | b # bs \<Rightarrow> (uint b, bs))"

definition read_char :: "usb_queue \<Rightarrow> int \<times> usb_queue" where
  "read_char q = readByte q"

subsection \<open>read_line\<close>

text \<open>
  The caller's buffer is the memory behind the pointer \<open>buffer\<close>, addressed by offset;
  \<open>buffer[*index]\<close> is offset \<open>unat index\<close>. A call returns its status together with the
  memory, the cursor \<open>*index\<close> and the device queue as it leaves them.
\<close>

type_synonym buffer_t = "nat \<Rightarrow> uint8_t"

record rl_result =
  rl_stat :: stat_t
  rl_buffer :: buffer_t
  rl_index :: uint16_t
  rl_usb :: usb_queue

text \<open>
  The \<open>for\<close> loop of \<open>read_line\<close>; the parameter \<open>size\<close> is \<open>sz\<close> here. The
  test \<open>*index < size\<close> compares the 16-bit cursor, converted without change of value,
  with the 32-bit size; \<open>(*index)++\<close> is an addition on \<open>uint16_t\<close> and wraps at
  \<open>2 ^ 16\<close>. A byte that is not a terminator stays where \<open>buffer[*index] = (uint8_t)c\<close>
  put it; a terminator is overwritten with \<open>NUL\<close> and the cursor stays on it.
\<close>

function read_line_loop :: "buffer_t \<Rightarrow> uint16_t \<Rightarrow> size_t \<Rightarrow> usb_queue \<Rightarrow> rl_result" where
  "read_line_loop buffer index sz usb =
     (if unat index < unat sz then
        (case read_char usb of (c, usb') \<Rightarrow>
           if c \<noteq> FDEV_ERR then
             (let buffer1 = buffer(unat index := word_of_int c) in
              if c = LF \<or> c = CR then
                \<lparr>rl_stat = STAT_OK, rl_buffer = buffer1(unat index := NUL),
                 rl_index = index, rl_usb = usb'\<rparr>
              else read_line_loop buffer1 (index + 1) sz usb')
           else
             \<lparr>rl_stat = STAT_EAGAIN, rl_buffer = buffer, rl_index = index, rl_usb = usb'\<rparr>)
      else
        \<lparr>rl_stat = STAT_BUFFER_FULL, rl_buffer = buffer, rl_index = index, rl_usb = usb\<rparr>)"
  by pat_completeness auto
termination
  apply (relation "measure (\<lambda>(buffer, index, sz, usb). length usb)")
   apply simp
  subgoal for buffer index sz usb x c usb'
    by (cases usb) (auto simp: read_char_def readByte_def FDEV_ERR_def)
  done

declare read_line_loop.simps [simp del]

definition read_line :: "buffer_t \<Rightarrow> uint16_t \<Rightarrow> size_t \<Rightarrow> usb_queue \<Rightarrow> rl_result" where
  "read_line buffer index sz usb =
     (if unat sz \<le> unat index then
        \<lparr>rl_stat = STAT_FILE_SIZE_EXCEEDED, rl_buffer = buffer, rl_index = index, rl_usb = usb\<rparr>
      else read_line_loop buffer index sz usb)"

text \<open>
  The bytes that end a line: \<open>read_char\<close> hands a byte on as its unsigned value, which
  \<open>read_line\<close> compares with \<open>LF\<close> and \<open>CR\<close>.
\<close>

definition is_eol :: "uint8_t \<Rightarrow> bool" where
  "is_eol b \<longleftrightarrow> uint b = LF \<or> uint b = CR"

text \<open>The memory \<open>buffer\<close> with the bytes \<open>bs\<close> stored from offset \<open>i\<close> on.\<close>

definition stored :: "buffer_t \<Rightarrow> nat \<Rightarrow> uint8_t list \<Rightarrow> buffer_t" where
  "stored buffer i bs = (\<lambda>j. if i \<le> j \<and> j < i + length bs then bs ! (j - i) else buffer j)"

text \<open>A buffer of NUL bytes, the memory the examples start from.\<close>

definition blank :: buffer_t where
  "blank = (\<lambda>j. 0)"

subsection \<open>The xio singleton\<close>

text \<open>
  Modelled from the spec: the structures of xio.h are not part of xio.cpp. A device holds
  \<open>current_state\<close> and \<open>next_state\<close>, the latter one of UNCHANGED (the value 0, which
  \<open>memset\<close> writes and \<open>xio_callback\<close> tests for), NOT_CONNECTED and CONNECTED; a channel
  holds its \<open>type\<close>; the singleton holds the device table \<open>d\<close>, the channel table \<open>c\<close>,
  \<open>spi_state\<close> and the two sentinels. The tables \<open>d\<close> and \<open>c\<close> are the fields
  \<open>xio_d\<close> and \<open>xio_c\<close>, the channel's \<open>type\<close> is \<open>chan_type\<close>. The device table is
  indexed by the devices xio.cpp names.
\<close>

datatype xioDeviceState = DEVICE_UNCHANGED | DEVICE_NOT_CONNECTED | DEVICE_CONNECTED

datatype xioDeviceEnum = DEV_USB0 | DEV_USB1

record xioDevice_t =
  current_state :: xioDeviceState
  next_state :: xioDeviceState

record xioChannel_t =
  chan_type :: uint8_t

record xioSingleton_t =
  magic_start :: uint16_t
  xio_d :: "xioDeviceEnum \<Rightarrow> xioDevice_t"
  xio_c :: "xioChannel_t list"
  spi_state :: uint8_t
  magic_end :: uint16_t

text \<open>
  \<open>MAGICNUM\<close> is a constant of a header that is not part of xio.cpp: the functions that
  use it take it as a parameter.
\<close>

definition xio_init_assertions :: "uint16_t \<Rightarrow> xioSingleton_t \<Rightarrow> xioSingleton_t" where
  "xio_init_assertions MAGICNUM xio = xio\<lparr>magic_start := MAGICNUM, magic_end := MAGICNUM\<rparr>"

definition xio_test_assertions :: "uint16_t \<Rightarrow> xioSingleton_t \<Rightarrow> stat_t \<times> xioSingleton_t" where
  "xio_test_assertions MAGICNUM xio =
     (if magic_start xio \<noteq> MAGICNUM \<or> magic_end xio \<noteq> MAGICNUM
      then (STAT_XIO_ASSERTION_FAILURE, xio)
      else (STAT_OK, xio))"

text \<open>
  The connection callbacks that \<open>xio_init\<close> registers with \<open>SerialUSB\<close> (device
  \<open>DEV_USB0\<close>) and \<open>SerialUSB1\<close> (device \<open>DEV_USB1\<close>): the hardware layer calls them
  with the new connection state.
\<close>

definition connection_callback :: "xioDeviceEnum \<Rightarrow> bool \<Rightarrow> xioSingleton_t \<Rightarrow> xioSingleton_t" where
  "connection_callback dv connected xio =
     xio\<lparr>xio_d := (xio_d xio)
       (dv := (xio_d xio dv)
          \<lparr>next_state := (if connected then DEVICE_CONNECTED else DEVICE_NOT_CONNECTED)\<rparr>)\<rparr>"

text \<open>A sequence of notifications, each naming its device, delivered in order.\<close>

fun notifications :: "(xioDeviceEnum \<times> bool) list \<Rightarrow> xioSingleton_t \<Rightarrow> xioSingleton_t" where
  "notifications [] xio = xio"
| "notifications ((dv, connected) # ns) xio = notifications ns (connection_callback dv connected xio)"

definition xio_callback :: "xioSingleton_t \<Rightarrow> stat_t \<times> xioSingleton_t" where
  "xio_callback xio =
     (if next_state (xio_d xio DEV_USB0) = DEVICE_UNCHANGED
         \<and> next_state (xio_d xio DEV_USB1) = DEVICE_UNCHANGED
      then (STAT_OK, xio)
      else (STAT_OK, xio))"

text \<open>
  The singleton as it is when the firmware starts: \<open>xio\<close> is a global object, which
  is zero-initialised. \<open>CHAN_MAX\<close>, the length of the channel table, is a constant of
  a header that is not part of xio.cpp and is a parameter.
\<close>

definition xio_zero :: "nat \<Rightarrow> xioSingleton_t" where
  "xio_zero CHAN_MAX =
     \<lparr>magic_start = 0,
      xio_d = (\<lambda>i. \<lparr>current_state = DEVICE_UNCHANGED, next_state = DEVICE_UNCHANGED\<rparr>),
      xio_c = replicate CHAN_MAX \<lparr>chan_type = 0\<rparr>,
      spi_state = 0,
      magic_end = 0\<rparr>"

subsection \<open>xio_set_spi\<close>

text \<open>
  The three SPI pins and their modes; \<open>setMode\<close> assigns the mode of one pin.
\<close>

datatype pin_mode = kInput | kOutput

record spi_pins =
  spi_miso_pin :: pin_mode
  spi_mosi_pin :: pin_mode
  spi_sck_pin :: pin_mode

text \<open>
  \<open>xio_set_spi\<close> reads \<open>nv->value\<close> only. The type of that field, the macro \<open>fp_EQ\<close>
  and the constants \<open>SPI_ENABLE\<close> and \<open>SPI_DISABLE\<close> are declared in headers that are
  not part of xio.cpp: the function takes the value, the conversion \<open>(uint8_t)\<close> of a
  value, the comparison and the two constants as parameters. The block under \<open>__ARM\<close> is
  compiled in, as for the width of \<open>size_t\<close>. The function returns its status, the
  singleton and the pins.
\<close>

definition xio_set_spi ::
  "('v \<Rightarrow> uint8_t) \<Rightarrow> ('v \<Rightarrow> 'v \<Rightarrow> bool) \<Rightarrow> 'v \<Rightarrow> 'v \<Rightarrow> 'v \<Rightarrow> xioSingleton_t \<Rightarrow> spi_pins
    \<Rightarrow> stat_t \<times> xioSingleton_t \<times> spi_pins" where
  "xio_set_spi to_uint8 fp_EQ SPI_ENABLE SPI_DISABLE nv_value xio pins =
     (let xio1 = xio\<lparr>spi_state := to_uint8 nv_value\<rparr>;
          pins1 =
            (if fp_EQ nv_value SPI_ENABLE then
               pins\<lparr>spi_miso_pin := kOutput, spi_mosi_pin := kOutput, spi_sck_pin := kOutput\<rparr>
             else if fp_EQ nv_value SPI_DISABLE then
               pins\<lparr>spi_miso_pin := kInput, spi_mosi_pin := kInput, spi_sck_pin := kInput\<rparr>
             else pins)
      in (STAT_OK, xio1, pins1))"

text \<open>
  The parameters as the firmware has them, for the examples. In the TinyG2 headers
  \<open>nv->value\<close> is a \<open>float\<close>, \<open>fp_EQ(a,b)\<close> is \<open>fabs(a-b) < EPSILON\<close> with \<open>EPSILON\<close>
  the \<open>float\<close> nearest to 0.00001, and the comment of \<open>xio_set_spi\<close> gives 1 for
  enable and 0 for disable. Every finite \<open>float\<close> is an integer divided by a power of
  two: the pair \<open>(m, e)\<close> stands for \<open>m / 2 ^ e\<close>, and \<open>EPSILON\<close> is
  \<open>10995116 / 2 ^ 40\<close>. The examples use values whose differences a \<open>float\<close> computes
  exactly. C converts a floating value to \<open>uint8_t\<close> by dropping its fraction; outside
  the range of \<open>uint8_t\<close> the conversion is undefined, and the examples stay inside it.
\<close>

type_synonym float_t = "int \<times> nat"

fun float_to_uint8 :: "float_t \<Rightarrow> uint8_t" where
  "float_to_uint8 (m, e) = word_of_int (if 0 \<le> m then m div 2 ^ e else - ((- m) div 2 ^ e))"

fun fp_EQ_float :: "float_t \<Rightarrow> float_t \<Rightarrow> bool" where
  "fp_EQ_float (m1, e1) (m2, e2) \<longleftrightarrow>
     \<bar>m1 * 2 ^ e2 - m2 * 2 ^ e1\<bar> * 2 ^ 40 < 10995116 * 2 ^ (e1 + e2)"

text \<open>The numbers the pairs stand for are equal.\<close>

fun float_eq :: "float_t \<Rightarrow> float_t \<Rightarrow> bool" where
  "float_eq (m1, e1) (m2, e2) \<longleftrightarrow> m1 * 2 ^ e2 = m2 * 2 ^ e1"

text \<open>All three pins in one mode.\<close>

definition pins_all :: "pin_mode \<Rightarrow> spi_pins" where
  "pins_all m = \<lparr>spi_miso_pin = m, spi_mosi_pin = m, spi_sck_pin = m\<rparr>"

section \<open>Properties of read_line\<close>

subsection \<open>One step of the loop\<close>

lemma read_line_loop_full:
  "\<not> unat index < unat sz \<Longrightarrow> read_line_loop buffer index sz usb =
     \<lparr>rl_stat = STAT_BUFFER_FULL, rl_buffer = buffer, rl_index = index, rl_usb = usb\<rparr>"
  by (simp add: read_line_loop.simps)

lemma read_line_loop_Nil:
  "unat index < unat sz \<Longrightarrow> read_line_loop buffer index sz [] =
     \<lparr>rl_stat = STAT_EAGAIN, rl_buffer = buffer, rl_index = index, rl_usb = []\<rparr>"
  by (simp add: read_line_loop.simps read_char_def readByte_def FDEV_ERR_def)

lemma uint_not_FDEV_ERR: "uint (b :: uint8_t) \<noteq> FDEV_ERR"
  using uint_nonnegative [of b] unfolding FDEV_ERR_def by linarith

lemma read_line_loop_eol:
  "unat index < unat sz \<Longrightarrow> is_eol b \<Longrightarrow> read_line_loop buffer index sz (b # bs) =
     \<lparr>rl_stat = STAT_OK, rl_buffer = buffer(unat index := NUL), rl_index = index, rl_usb = bs\<rparr>"
  by (simp add: read_line_loop.simps [of buffer index sz "b # bs"] read_char_def readByte_def
      uint_not_FDEV_ERR is_eol_def)

lemma read_line_loop_store:
  "unat index < unat sz \<Longrightarrow> \<not> is_eol b \<Longrightarrow> read_line_loop buffer index sz (b # bs) =
     read_line_loop (buffer(unat index := b)) (index + 1) sz bs"
  by (simp add: read_line_loop.simps [of buffer index sz "b # bs"] read_char_def readByte_def
      uint_not_FDEV_ERR is_eol_def)

lemma unat_index_Suc: "unat (index :: uint16_t) < 65535 \<Longrightarrow> unat (index + 1) = Suc (unat index)"
  by (simp add: unat_word_ariths)

lemma stored_Cons: "stored (buffer(i := b)) (Suc i) bs = stored buffer i (b # bs)"
  by (rule ext) (auto simp: stored_def nth_Cons')

lemma stored_Nil: "stored buffer i [] = buffer"
  by (rule ext) (auto simp: stored_def)

lemma read_line_loop_prefix:
  "\<forall>b\<in>set pre. \<not> is_eol b \<Longrightarrow> unat index + length pre \<le> unat sz \<Longrightarrow>
   unat index + length pre < 65536 \<Longrightarrow>
   read_line_loop buffer index sz (pre @ rest) =
     read_line_loop (stored buffer (unat index) pre) (index + of_nat (length pre)) sz rest
   \<and> unat (index + of_nat (length pre)) = unat index + length pre"
proof (induction pre arbitrary: buffer index)
  case Nil
  then show ?case by (simp add: stored_Nil)
next
  case (Cons b bs)
  have lt: "unat index < unat sz" and ne: "\<not> is_eol b" and small: "unat index < 65535"
    using Cons.prems by auto
  have suc: "unat (index + 1) = Suc (unat index)"
    using small by (rule unat_index_Suc)
  have ih: "read_line_loop (buffer(unat index := b)) (index + 1) sz (bs @ rest) =
      read_line_loop (stored (buffer(unat index := b)) (unat (index + 1)) bs)
        (index + 1 + of_nat (length bs)) sz rest
      \<and> unat (index + 1 + of_nat (length bs)) = unat (index + 1) + length bs"
    using Cons.prems by (intro Cons.IH) (auto simp: suc)
  show ?case
    using ih by (simp add: read_line_loop_store [OF lt ne] suc stored_Cons add.assoc)
qed


lemma read_line_loop_not_exceeded:
  "rl_stat (read_line_loop buffer index sz usb) \<noteq> STAT_FILE_SIZE_EXCEEDED"
proof (induction usb arbitrary: buffer index)
  case Nil
  then show ?case
    by (cases "unat index < unat sz") (simp_all add: read_line_loop_Nil read_line_loop_full)
next
  case (Cons b bs)
  then show ?case
    by (cases "unat index < unat sz"; cases "is_eol b")
      (simp_all add: read_line_loop_eol read_line_loop_store read_line_loop_full)
qed

lemma read_line_loop_resume:
  "rl_stat (read_line_loop buffer index sz pre) = STAT_EAGAIN \<Longrightarrow>
   unat (rl_index (read_line_loop buffer index sz pre)) < unat sz \<and>
   read_line_loop (rl_buffer (read_line_loop buffer index sz pre))
       (rl_index (read_line_loop buffer index sz pre)) sz
       (rl_usb (read_line_loop buffer index sz pre) @ suf) =
     read_line_loop buffer index sz (pre @ suf)"
proof (induction pre arbitrary: buffer index)
  case Nil
  then show ?case
    by (cases "unat index < unat sz") (simp_all add: read_line_loop_Nil read_line_loop_full)
next
  case (Cons b bs)
  show ?case
  proof (cases "unat index < unat sz")
    case False
    with Cons.prems show ?thesis by (simp add: read_line_loop_full)
  next
    case lt: True
    show ?thesis
    proof (cases "is_eol b")
      case True
      with lt Cons.prems show ?thesis by (simp add: read_line_loop_eol)
    next
      case False
      have step: "read_line_loop buffer index sz (b # bs) =
          read_line_loop (buffer(unat index := b)) (index + 1) sz bs"
        by (rule read_line_loop_store [OF lt False])
      have step': "read_line_loop buffer index sz ((b # bs) @ suf) =
          read_line_loop (buffer(unat index := b)) (index + 1) sz (bs @ suf)"
        by (simp add: read_line_loop_store [OF lt False])
      from Cons.prems
      have "rl_stat (read_line_loop (buffer(unat index := b)) (index + 1) sz bs) = STAT_EAGAIN"
        by (simp only: step)
      from Cons.IH [OF this] show ?thesis
        by (simp only: step step')
    qed
  qed
qed

lemma read_line_loop_frame:
  "unat sz \<le> 65535 \<Longrightarrow> unat index \<le> unat sz \<Longrightarrow>
   unat index \<le> unat (rl_index (read_line_loop buffer index sz usb)) \<and>
   unat (rl_index (read_line_loop buffer index sz usb)) \<le> unat sz \<and>
   (\<forall>j. j < unat index \<or> unat sz \<le> j \<longrightarrow>
      rl_buffer (read_line_loop buffer index sz usb) j = buffer j)"
proof (induction usb arbitrary: buffer index)
  case Nil
  then show ?case
    by (cases "unat index < unat sz") (simp_all add: read_line_loop_Nil read_line_loop_full)
next
  case (Cons b bs)
  show ?case
  proof (cases "unat index < unat sz")
    case False
    with Cons.prems show ?thesis by (simp add: read_line_loop_full)
  next
    case lt: True
    show ?thesis
    proof (cases "is_eol b")
      case True
      with lt show ?thesis by (auto simp: read_line_loop_eol)
    next
      case False
      have suc: "unat (index + 1) = Suc (unat index)"
        using lt Cons.prems by (intro unat_index_Suc) simp
      have "unat (index + 1) \<le> unat sz"
        using lt suc by simp
      from Cons.IH [OF Cons.prems(1) this, of "buffer(unat index := b)"]
      have ih: "Suc (unat index)
            \<le> unat (rl_index (read_line_loop (buffer(unat index := b)) (index + 1) sz bs))"
          "unat (rl_index (read_line_loop (buffer(unat index := b)) (index + 1) sz bs))
            \<le> unat sz"
          "\<And>j. j < Suc (unat index) \<or> unat sz \<le> j \<Longrightarrow>
            rl_buffer (read_line_loop (buffer(unat index := b)) (index + 1) sz bs) j =
            (buffer(unat index := b)) j"
        by (simp_all only: suc)
      have step: "read_line_loop buffer index sz (b # bs) =
          read_line_loop (buffer(unat index := b)) (index + 1) sz bs"
        by (rule read_line_loop_store [OF lt False])
      show ?thesis
        unfolding step
      proof (intro conjI allI impI)
        show "unat index
            \<le> unat (rl_index (read_line_loop (buffer(unat index := b)) (index + 1) sz bs))"
          using ih(1) by simp
        show "unat (rl_index (read_line_loop (buffer(unat index := b)) (index + 1) sz bs))
            \<le> unat sz"
          by (rule ih(2))
        fix j assume j: "j < unat index \<or> unat sz \<le> j"
        then have "j < Suc (unat index) \<or> unat sz \<le> j" by auto
        from ih(3) [OF this] j lt
        show "rl_buffer (read_line_loop (buffer(unat index := b)) (index + 1) sz bs) j = buffer j"
          by auto
      qed
    qed
  qed
qed

lemma read_line_loop_frame_short:
  "unat index + length usb < 65536 \<Longrightarrow> unat index \<le> unat sz \<Longrightarrow>
   unat index \<le> unat (rl_index (read_line_loop buffer index sz usb)) \<and>
   unat (rl_index (read_line_loop buffer index sz usb)) \<le> unat sz \<and>
   (\<forall>j. j < unat index \<or> unat sz \<le> j \<longrightarrow>
      rl_buffer (read_line_loop buffer index sz usb) j = buffer j)"
proof (induction usb arbitrary: buffer index)
  case Nil
  then show ?case
    by (cases "unat index < unat sz") (simp_all add: read_line_loop_Nil read_line_loop_full)
next
  case (Cons b bs)
  show ?case
  proof (cases "unat index < unat sz")
    case False
    with Cons.prems show ?thesis by (simp add: read_line_loop_full)
  next
    case lt: True
    show ?thesis
    proof (cases "is_eol b")
      case True
      with lt show ?thesis by (auto simp: read_line_loop_eol)
    next
      case False
      have suc: "unat (index + 1) = Suc (unat index)"
        using Cons.prems by (intro unat_index_Suc) simp
      have short: "unat (index + 1) + length bs < 65536"
        using Cons.prems by (simp add: suc)
      have le: "unat (index + 1) \<le> unat sz"
        using lt suc by simp
      from Cons.IH [OF short le, of "buffer(unat index := b)"]
      have ih: "Suc (unat index)
            \<le> unat (rl_index (read_line_loop (buffer(unat index := b)) (index + 1) sz bs))"
          "unat (rl_index (read_line_loop (buffer(unat index := b)) (index + 1) sz bs))
            \<le> unat sz"
          "\<And>j. j < Suc (unat index) \<or> unat sz \<le> j \<Longrightarrow>
            rl_buffer (read_line_loop (buffer(unat index := b)) (index + 1) sz bs) j =
            (buffer(unat index := b)) j"
        by (simp_all only: suc)
      have step: "read_line_loop buffer index sz (b # bs) =
          read_line_loop (buffer(unat index := b)) (index + 1) sz bs"
        by (rule read_line_loop_store [OF lt False])
      show ?thesis
        unfolding step
      proof (intro conjI allI impI)
        show "unat index
            \<le> unat (rl_index (read_line_loop (buffer(unat index := b)) (index + 1) sz bs))"
          using ih(1) by simp
        show "unat (rl_index (read_line_loop (buffer(unat index := b)) (index + 1) sz bs))
            \<le> unat sz"
          by (rule ih(2))
        fix j assume j: "j < unat index \<or> unat sz \<le> j"
        then have "j < Suc (unat index) \<or> unat sz \<le> j" by auto
        from ih(3) [OF this] j lt
        show "rl_buffer (read_line_loop (buffer(unat index := b)) (index + 1) sz bs) j = buffer j"
          by auto
      qed
    qed
  qed
qed

lemma read_line_loop_wrap:
  "65536 \<le> unat sz \<Longrightarrow> \<not> is_eol x \<Longrightarrow>
   \<exists>buffer'. read_line_loop buffer index sz (replicate n x @ rest) =
     read_line_loop buffer' (index + of_nat n) sz rest"
proof (induction n arbitrary: buffer index)
  case 0
  then show ?case by auto
next
  case (Suc n)
  have "unat index < 2 ^ LENGTH(16)"
    by (rule unsigned_less)
  then have "unat index < 65536"
    by simp
  with Suc.prems have lt: "unat index < unat sz" by simp
  from Suc.IH [OF Suc.prems, of "buffer(unat index := x)" "index + 1"]
  obtain buffer' where "read_line_loop (buffer(unat index := x)) (index + 1) sz
      (replicate n x @ rest) = read_line_loop buffer' (index + 1 + of_nat n) sz rest"
    by blast
  then have "read_line_loop buffer index sz (replicate (Suc n) x @ rest) =
      read_line_loop buffer' (index + of_nat (Suc n)) sz rest"
    by (simp add: read_line_loop_store [OF lt Suc.prems(2)] add.assoc)
  then show ?case
    by blast
qed

lemma read_line_loop_drained:
  "rl_stat (read_line_loop buffer index sz usb) = STAT_EAGAIN \<Longrightarrow>
   rl_usb (read_line_loop buffer index sz usb) = []"
proof (induction usb arbitrary: buffer index)
  case Nil
  then show ?case
    by (cases "unat index < unat sz") (simp_all add: read_line_loop_Nil read_line_loop_full)
next
  case (Cons b bs)
  then show ?case
    by (cases "unat index < unat sz"; cases "is_eol b")
      (simp_all add: read_line_loop_eol read_line_loop_store read_line_loop_full)
qed

subsection \<open>A complete line\<close>

text \<open>
  A complete line that fits the 16-bit cursor. Let \<open>line\<close> be the bytes of the device
  queue before its first CR or LF (all of the queue when it has none). For every buffer,
  with entry cursor 0, a size greater than the length of \<open>line\<close>, and \<open>line\<close> shorter
  than 65536 bytes, \<open>read_line\<close> returns OK exactly when the queue holds a CR or LF; at
  that return the cursor is the length of \<open>line\<close>, the buffer holds \<open>line\<close> from
  offset 0 followed by NUL at the terminator's position, the memory behind it is
  unchanged, and the queue has lost \<open>line\<close> and the terminator.
\<close>

theorem read_line_ok:
  assumes line: "line = takeWhile (\<lambda>b. \<not> is_eol b) usb"
    and fits: "length line < unat sz"
    and cursor: "length line < 65536"
  shows "(rl_stat (read_line buffer 0 sz usb) = STAT_OK \<longleftrightarrow> (\<exists>b\<in>set usb. is_eol b)) \<and>
    (rl_stat (read_line buffer 0 sz usb) = STAT_OK \<longrightarrow>
       unat (rl_index (read_line buffer 0 sz usb)) = length line \<and>
       map (rl_buffer (read_line buffer 0 sz usb)) [0..<length line] = line \<and>
       rl_buffer (read_line buffer 0 sz usb) (length line) = NUL \<and>
       (\<forall>j>length line. rl_buffer (read_line buffer 0 sz usb) j = buffer j) \<and>
       rl_usb (read_line buffer 0 sz usb) = drop (Suc (length line)) usb)"
proof -
  define rest where "rest = dropWhile (\<lambda>b. \<not> is_eol b) usb"
  have usb: "usb = line @ rest"
    by (simp add: line rest_def)
  have clean: "\<forall>b\<in>set line. \<not> is_eol b"
    unfolding line by (auto dest: set_takeWhileD)
  have pos: "unat sz \<le> unat (0 :: uint16_t) \<longleftrightarrow> False"
    using fits by simp
  have run: "read_line buffer 0 sz usb =
      read_line_loop (stored buffer 0 line) (of_nat (length line)) sz rest"
    and at: "unat (of_nat (length line) :: uint16_t) = length line"
    using read_line_loop_prefix [of line 0 sz buffer rest] clean fits cursor
    by (simp_all add: read_line_def pos usb)
  have lt: "unat (of_nat (length line) :: uint16_t) < unat sz"
    using fits by (simp only: at)
  show ?thesis
  proof (cases rest)
    case Nil
    then have "\<not> (\<exists>b\<in>set usb. is_eol b)"
      using clean by (simp add: usb)
    moreover have "rl_stat (read_line buffer 0 sz usb) = STAT_EAGAIN"
      by (simp add: run Nil read_line_loop_Nil [OF lt])
    ultimately show ?thesis by simp
  next
    case (Cons t ts)
    have t: "is_eol t"
      using Cons unfolding rest_def by (simp add: dropWhile_eq_Cons_conv)
    have res: "read_line buffer 0 sz usb =
        \<lparr>rl_stat = STAT_OK, rl_buffer = (stored buffer 0 line)(length line := NUL),
         rl_index = of_nat (length line), rl_usb = ts\<rparr>"
      by (simp add: run Cons read_line_loop_eol [OF lt t] at)
    have "\<exists>b\<in>set usb. is_eol b"
      using t by (auto simp: usb Cons)
    moreover have "map ((stored buffer 0 line)(length line := NUL)) [0..<length line] = line"
      by (rule nth_equalityI) (simp_all add: stored_def)
    moreover have "drop (Suc (length line)) usb = ts"
      by (simp add: usb Cons)
    ultimately show ?thesis
      by (simp add: res at stored_def)
  qed
qed


text \<open>
  The spec's scenario: the bytes of \<open>G1 X10\<close> and LF with size 32 give OK, the six
  characters followed by NUL, and cursor 6.
\<close>

theorem read_line_ok_witness:
  "takeWhile (\<lambda>b. \<not> is_eol b) [0x47, 0x31, 0x20, 0x58, 0x31, 0x30, 0x0A]
      = [0x47, 0x31, 0x20, 0x58, 0x31, 0x30]
   \<and> length [0x47, 0x31, 0x20, 0x58, 0x31, 0x30 :: uint8_t] < unat (32 :: size_t)
   \<and> rl_stat (read_line blank 0 32 [0x47, 0x31, 0x20, 0x58, 0x31, 0x30, 0x0A]) = STAT_OK
   \<and> unat (rl_index (read_line blank 0 32 [0x47, 0x31, 0x20, 0x58, 0x31, 0x30, 0x0A])) = 6
   \<and> map (rl_buffer (read_line blank 0 32 [0x47, 0x31, 0x20, 0x58, 0x31, 0x30, 0x0A])) [0..<6]
      = [0x47, 0x31, 0x20, 0x58, 0x31, 0x30]
   \<and> rl_buffer (read_line blank 0 32 [0x47, 0x31, 0x20, 0x58, 0x31, 0x30, 0x0A]) 6 = NUL"
proof -
  have line: "takeWhile (\<lambda>b. \<not> is_eol b) [0x47, 0x31, 0x20, 0x58, 0x31, 0x30, 0x0A]
      = [0x47, 0x31, 0x20, 0x58, 0x31, 0x30]"
    by (simp add: is_eol_def LF_def CR_def)
  have len: "length [0x47, 0x31, 0x20, 0x58, 0x31, 0x30 :: uint8_t] = 6"
    by simp
  have fits: "length [0x47, 0x31, 0x20, 0x58, 0x31, 0x30 :: uint8_t] < unat (32 :: size_t)"
    by simp
  have cursor: "length [0x47, 0x31, 0x20, 0x58, 0x31, 0x30 :: uint8_t] < 65536"
    by simp
  have eol: "\<exists>b\<in>set [0x47, 0x31, 0x20, 0x58, 0x31, 0x30, 0x0A]. is_eol b"
    by (simp add: is_eol_def LF_def CR_def)
  from read_line_ok [OF line [symmetric] fits cursor, of blank] eol
  have "rl_stat (read_line blank 0 32 [0x47, 0x31, 0x20, 0x58, 0x31, 0x30, 0x0A]) = STAT_OK
   \<and> unat (rl_index (read_line blank 0 32 [0x47, 0x31, 0x20, 0x58, 0x31, 0x30, 0x0A]))
      = length [0x47, 0x31, 0x20, 0x58, 0x31, 0x30 :: uint8_t]
   \<and> map (rl_buffer (read_line blank 0 32 [0x47, 0x31, 0x20, 0x58, 0x31, 0x30, 0x0A]))
        [0..<length [0x47, 0x31, 0x20, 0x58, 0x31, 0x30 :: uint8_t]]
      = [0x47, 0x31, 0x20, 0x58, 0x31, 0x30]
   \<and> rl_buffer (read_line blank 0 32 [0x47, 0x31, 0x20, 0x58, 0x31, 0x30, 0x0A])
        (length [0x47, 0x31, 0x20, 0x58, 0x31, 0x30 :: uint8_t]) = NUL"
    by blast
  then show ?thesis
    using line fits by (simp only: len)
qed

text \<open>
  C1. With entry cursor 0 and a size large enough, \<open>read_line\<close> is to return OK at the
  first CR or LF with exactly the bytes before it in the buffer, NUL in the terminator's
  place and the cursor equal to their count, as its documentation says (a complete null
  terminated string, the index its character count). The code does not do so for every
  line: with 65536 bytes before LF and the size 65537, which is large enough for them,
  the 16-bit cursor wraps to 0 while the test against the size still passes; the call
  returns OK with cursor 0, not 65536, and with NUL at offset 0, where the first byte of
  the line belongs.
\<close>

theorem read_line_ok_wraps:
  "rl_stat (read_line blank 0 65537 (replicate 65536 0x41 @ [0x0A])) = STAT_OK
   \<and> unat (rl_index (read_line blank 0 65537 (replicate 65536 0x41 @ [0x0A]))) = 0
   \<and> rl_buffer (read_line blank 0 65537 (replicate 65536 0x41 @ [0x0A])) 0 = NUL
   \<and> length (replicate 65536 (0x41 :: uint8_t)) = 65536
   \<and> NUL \<noteq> 0x41"
proof -
  have a: "\<not> is_eol 0x41"
    by (simp add: is_eol_def LF_def CR_def)
  have b: "is_eol 0x0A"
    by (simp add: is_eol_def LF_def CR_def)
  obtain buffer' where "read_line_loop blank 0 65537 (replicate 65536 0x41 @ [0x0A]) =
     read_line_loop buffer' (0 + of_nat 65536) 65537 [0x0A]"
    using read_line_loop_wrap [of 65537 "0x41" blank 0 65536 "[0x0A]"] a by auto
  then show ?thesis
    by (simp add: read_line_def read_line_loop_eol b NUL_def)
qed

subsection \<open>Retry after EAGAIN\<close>

text \<open>
  C2. When \<open>read_line\<close> returns EAGAIN on the bytes \<open>pre\<close>, it has read all of them,
  and a second call with the buffer and cursor it left, once the bytes \<open>suf\<close> have
  arrived, returns the status, buffer, cursor and queue of a single call that finds
  \<open>pre\<close> followed by \<open>suf\<close>.
\<close>

theorem read_line_retry:
  assumes "rl_stat (read_line buffer index sz pre) = STAT_EAGAIN"
  shows "rl_usb (read_line buffer index sz pre) = [] \<and>
    read_line (rl_buffer (read_line buffer index sz pre))
        (rl_index (read_line buffer index sz pre)) sz suf =
      read_line buffer index sz (pre @ suf)"
proof -
  have lt: "\<not> unat sz \<le> unat index"
    using assms by (auto simp: read_line_def)
  then have loop: "read_line buffer index sz pre = read_line_loop buffer index sz pre"
    and loop': "read_line buffer index sz (pre @ suf) = read_line_loop buffer index sz (pre @ suf)"
    by (simp_all add: read_line_def)
  have again: "rl_stat (read_line_loop buffer index sz pre) = STAT_EAGAIN"
    using assms by (simp only: loop)
  have drained: "rl_usb (read_line_loop buffer index sz pre) = []"
    by (rule read_line_loop_drained [OF again])
  from read_line_loop_resume [OF again, of suf]
  have "unat (rl_index (read_line_loop buffer index sz pre)) < unat sz"
    and "read_line_loop (rl_buffer (read_line_loop buffer index sz pre))
       (rl_index (read_line_loop buffer index sz pre)) sz suf =
     read_line_loop buffer index sz (pre @ suf)"
    by (simp_all add: drained)
  then show ?thesis
    using lt by (simp add: loop loop' drained read_line_def)
qed

theorem read_line_retry_witness:
  "rl_stat (read_line blank 0 32 [0x41, 0x42]) = STAT_EAGAIN
   \<and> read_line (rl_buffer (read_line blank 0 32 [0x41, 0x42]))
        (rl_index (read_line blank 0 32 [0x41, 0x42])) 32 [0x43, 0x0A]
      = read_line blank 0 32 [0x41, 0x42, 0x43, 0x0A]
   \<and> rl_stat (read_line blank 0 32 [0x41, 0x42, 0x43, 0x0A]) = STAT_OK
   \<and> unat (rl_index (read_line blank 0 32 [0x41, 0x42, 0x43, 0x0A])) = 3"
proof -
  have again: "rl_stat (read_line blank 0 32 [0x41, 0x42]) = STAT_EAGAIN"
    by (simp add: read_line_def read_line_loop_store read_line_loop_Nil is_eol_def LF_def CR_def)
  have whole: "rl_stat (read_line blank 0 32 [0x41, 0x42, 0x43, 0x0A]) = STAT_OK
      \<and> unat (rl_index (read_line blank 0 32 [0x41, 0x42, 0x43, 0x0A])) = 3"
    by (simp add: read_line_def read_line_loop_store read_line_loop_eol is_eol_def LF_def CR_def)
  show ?thesis
    using read_line_retry [OF again, of "[0x43, 0x0A]"] again whole by simp
qed

subsection \<open>The entry check\<close>

text \<open>
  C3. \<open>read_line\<close> returns FILE_SIZE_EXCEEDED exactly when the entry cursor is greater
  than or equal to the size, which includes size 0, and then the buffer, the cursor and
  the device queue are as they were; with the entry cursor below the size it never
  returns FILE_SIZE_EXCEEDED.
\<close>

theorem read_line_file_size_exceeded:
  "(rl_stat (read_line buffer index sz usb) = STAT_FILE_SIZE_EXCEEDED \<longleftrightarrow> unat sz \<le> unat index)
   \<and> (unat sz \<le> unat index \<longrightarrow>
        read_line buffer index sz usb =
          \<lparr>rl_stat = STAT_FILE_SIZE_EXCEEDED, rl_buffer = buffer, rl_index = index,
           rl_usb = usb\<rparr>)"
  by (simp add: read_line_def read_line_loop_not_exceeded)

theorem read_line_file_size_exceeded_witness:
  "unat (0 :: size_t) \<le> unat (0 :: uint16_t)
   \<and> read_line blank 0 0 [0x41, 0x0A] =
       \<lparr>rl_stat = STAT_FILE_SIZE_EXCEEDED, rl_buffer = blank, rl_index = 0,
        rl_usb = [0x41, 0x0A]\<rparr>
   \<and> unat (5 :: size_t) \<le> unat (5 :: uint16_t)
   \<and> rl_stat (read_line blank 5 5 [0x41, 0x0A]) = STAT_FILE_SIZE_EXCEEDED
   \<and> \<not> unat (5 :: size_t) \<le> unat (4 :: uint16_t)
   \<and> rl_stat (read_line blank 4 5 [0x41, 0x0A]) \<noteq> STAT_FILE_SIZE_EXCEEDED"
  using read_line_file_size_exceeded [of blank 0 0 "[0x41, 0x0A]"]
    read_line_file_size_exceeded [of blank 5 5 "[0x41, 0x0A]"]
    read_line_file_size_exceeded [of blank 4 5 "[0x41, 0x0A]"]
  by simp


subsection \<open>No data\<close>

text \<open>
  No data, within the range of the 16-bit cursor. For every call to \<open>read_line\<close> in
  which the device queue holds no CR or LF and the entry cursor plus the number of queued
  bytes is below the size and below 65536, \<open>read_line\<close> returns EAGAIN with the cursor
  at the entry cursor plus the number of bytes consumed, which is the first free buffer
  position; the buffer holds the consumed bytes from the entry cursor on and is otherwise
  unchanged, and the queue is empty.
\<close>

theorem read_line_eagain:
  assumes "\<forall>b\<in>set usb. \<not> is_eol b"
    and "unat index + length usb < unat sz"
    and "unat index + length usb < 65536"
  shows "rl_stat (read_line buffer index sz usb) = STAT_EAGAIN
    \<and> unat (rl_index (read_line buffer index sz usb)) = unat index + length usb
    \<and> rl_buffer (read_line buffer index sz usb) = stored buffer (unat index) usb
    \<and> rl_usb (read_line buffer index sz usb) = []"
proof -
  have run: "read_line_loop buffer index sz (usb @ []) =
      read_line_loop (stored buffer (unat index) usb) (index + of_nat (length usb)) sz []"
    and at: "unat (index + of_nat (length usb)) = unat index + length usb"
    using read_line_loop_prefix [of usb index sz buffer "[]"] assms by simp_all
  have lt: "unat (index + of_nat (length usb)) < unat sz"
    using assms(2) by (simp only: at)
  have "read_line buffer index sz usb = read_line_loop buffer index sz usb"
    using assms(2) by (simp add: read_line_def)
  also have "\<dots> = \<lparr>rl_stat = STAT_EAGAIN, rl_buffer = stored buffer (unat index) usb,
      rl_index = index + of_nat (length usb), rl_usb = []\<rparr>"
    using run by (simp add: read_line_loop_Nil [OF lt])
  finally show ?thesis
    by (simp add: at)
qed

text \<open>
  The spec's scenario: the bytes of \<open>ABC\<close> and then no data, with size 32 and entry
  cursor 0, give EAGAIN, cursor 3 and the three bytes at offsets 0 to 2.
\<close>

theorem read_line_eagain_witness:
  "\<not> is_eol 0x41 \<and> \<not> is_eol 0x42 \<and> \<not> is_eol 0x43
   \<and> unat (0 :: uint16_t) + length [0x41, 0x42, 0x43 :: uint8_t] < unat (32 :: size_t)
   \<and> rl_stat (read_line blank 0 32 [0x41, 0x42, 0x43]) = STAT_EAGAIN
   \<and> unat (rl_index (read_line blank 0 32 [0x41, 0x42, 0x43])) = 3
   \<and> map (rl_buffer (read_line blank 0 32 [0x41, 0x42, 0x43])) [0, 1, 2] = [0x41, 0x42, 0x43]"
proof -
  have clean: "\<forall>b\<in>set [0x41, 0x42, 0x43]. \<not> is_eol b"
    by (simp add: is_eol_def LF_def CR_def)
  have fits: "unat (0 :: uint16_t) + length [0x41, 0x42, 0x43 :: uint8_t] < unat (32 :: size_t)"
    by simp
  have cursor: "unat (0 :: uint16_t) + length [0x41, 0x42, 0x43 :: uint8_t] < 65536"
    by simp
  show ?thesis
    using read_line_eagain [OF clean fits cursor, of blank] clean
    by (simp add: stored_def)
qed

text \<open>
  C4. When the source runs out of data before a terminator is seen and before the cursor
  reaches the size, \<open>read_line\<close> is to return EAGAIN with the cursor at the first free
  buffer position, the entry cursor plus the number of bytes consumed, as its
  documentation says (index is left at the first available space). The code does not do
  so for every call: at entry cursor 65535 with size 65538 and two bytes queued, the
  cursor wraps after the first byte, and the call returns EAGAIN with cursor 1, not 65537.
\<close>

theorem read_line_eagain_wraps:
  "rl_stat (read_line blank 65535 65538 [0x41, 0x42]) = STAT_EAGAIN
   \<and> unat (rl_index (read_line blank 65535 65538 [0x41, 0x42])) = 1
   \<and> unat (65535 :: uint16_t) + length [0x41, 0x42 :: uint8_t] = 65537
   \<and> unat (65538 :: size_t) = 65538"
  by (simp add: read_line_def read_line_loop_store read_line_loop_Nil is_eol_def LF_def CR_def)

subsection \<open>Buffer full\<close>

text \<open>
  Buffer full, within the range of the 16-bit cursor. For every call to \<open>read_line\<close>
  with the entry cursor below the size and a size of at most 65535, if the first
  \<open>size - cursor\<close> bytes of the device queue are there and hold no CR or LF,
  \<open>read_line\<close> returns BUFFER_FULL with the cursor equal to the size, exactly those
  bytes consumed and stored from the entry cursor on, and the rest of the buffer unchanged.
\<close>

theorem read_line_buffer_full:
  assumes "unat index < unat sz"
    and "unat sz \<le> 65535"
    and "unat sz - unat index \<le> length usb"
    and "\<forall>b\<in>set (take (unat sz - unat index) usb). \<not> is_eol b"
  shows "rl_stat (read_line buffer index sz usb) = STAT_BUFFER_FULL
    \<and> unat (rl_index (read_line buffer index sz usb)) = unat sz
    \<and> rl_buffer (read_line buffer index sz usb) =
        stored buffer (unat index) (take (unat sz - unat index) usb)
    \<and> rl_usb (read_line buffer index sz usb) = drop (unat sz - unat index) usb"
proof -
  define n where "n = unat sz - unat index"
  define pre where "pre = take n usb"
  define rest where "rest = drop n usb"
  have usb: "usb = pre @ rest"
    by (simp add: pre_def rest_def)
  have len: "length pre = n"
    using assms(3) by (simp add: pre_def n_def)
  have sum: "unat index + length pre = unat sz"
    using assms(1) by (simp add: len n_def)
  have clean: "\<forall>b\<in>set pre. \<not> is_eol b"
    using assms(4) by (simp add: pre_def n_def)
  have run: "read_line_loop buffer index sz (pre @ rest) =
      read_line_loop (stored buffer (unat index) pre) (index + of_nat (length pre)) sz rest"
    and at: "unat (index + of_nat (length pre)) = unat index + length pre"
    using read_line_loop_prefix [of pre index sz buffer rest] clean sum assms(2) by simp_all
  have full: "\<not> unat (index + of_nat (length pre)) < unat sz"
    by (simp add: at sum)
  have "read_line buffer index sz usb = read_line_loop buffer index sz (pre @ rest)"
    using assms(1) by (simp add: read_line_def usb)
  also have "\<dots> = \<lparr>rl_stat = STAT_BUFFER_FULL, rl_buffer = stored buffer (unat index) pre,
      rl_index = index + of_nat (length pre), rl_usb = rest\<rparr>"
    by (simp only: run read_line_loop_full [OF full])
  finally show ?thesis
    by (simp add: at sum) (simp add: pre_def rest_def n_def)
qed

text \<open>
  The spec's scenario: ten bytes without a terminator into a buffer of size 5 give
  BUFFER_FULL with cursor 5 after five bytes consumed.
\<close>

theorem read_line_buffer_full_witness:
  "unat (0 :: uint16_t) < unat (5 :: size_t)
   \<and> unat (5 :: size_t) - unat (0 :: uint16_t)
        \<le> length [0x30, 0x31, 0x32, 0x33, 0x34, 0x35, 0x36, 0x37, 0x38, 0x39 :: uint8_t]
   \<and> rl_stat (read_line blank 0 5 [0x30, 0x31, 0x32, 0x33, 0x34, 0x35, 0x36, 0x37, 0x38, 0x39])
        = STAT_BUFFER_FULL
   \<and> unat (rl_index
        (read_line blank 0 5 [0x30, 0x31, 0x32, 0x33, 0x34, 0x35, 0x36, 0x37, 0x38, 0x39])) = 5
   \<and> rl_usb (read_line blank 0 5 [0x30, 0x31, 0x32, 0x33, 0x34, 0x35, 0x36, 0x37, 0x38, 0x39])
        = [0x35, 0x36, 0x37, 0x38, 0x39]"
proof -
  have lt: "unat (0 :: uint16_t) < unat (5 :: size_t)"
    by simp
  have small: "unat (5 :: size_t) \<le> 65535"
    by simp
  have enough: "unat (5 :: size_t) - unat (0 :: uint16_t)
      \<le> length [0x30, 0x31, 0x32, 0x33, 0x34, 0x35, 0x36, 0x37, 0x38, 0x39 :: uint8_t]"
    by simp
  have clean: "\<forall>b\<in>set (take (unat (5 :: size_t) - unat (0 :: uint16_t))
      [0x30, 0x31, 0x32, 0x33, 0x34, 0x35, 0x36, 0x37, 0x38, 0x39]). \<not> is_eol b"
    by (simp add: is_eol_def LF_def CR_def)
  show ?thesis
    using read_line_buffer_full [OF lt small enough clean, of blank]
    by simp
qed

text \<open>
  C5. With the entry cursor below the size, when the source yields bytes without a
  terminator until the cursor reaches the size, \<open>read_line\<close> is to return BUFFER_FULL
  with the cursor equal to the size, as its documentation says (index will equal size).
  The code does not do so for every call: at size 65536 and entry cursor 65535 the one
  byte that fills the buffer makes the cursor wrap to 0, a second byte is consumed and
  stored at offset 0, and the call returns EAGAIN with cursor 1 and an empty queue.
\<close>

theorem read_line_buffer_full_wraps:
  "rl_stat (read_line blank 65535 65536 [0x43, 0x44]) = STAT_EAGAIN
   \<and> unat (rl_index (read_line blank 65535 65536 [0x43, 0x44])) = 1
   \<and> rl_usb (read_line blank 65535 65536 [0x43, 0x44]) = []
   \<and> unat (65536 :: size_t) - unat (65535 :: uint16_t) = 1"
  by (simp add: read_line_def read_line_loop_store read_line_loop_Nil is_eol_def LF_def CR_def)

subsection \<open>Frame and bounds\<close>

text \<open>
  Frame and bounds, as long as the 16-bit cursor cannot wrap. For every call to
  \<open>read_line\<close> with entry cursor \<open>i\<close> below the size, and with a size of at most 65535
  or with \<open>i\<close> plus the number of queued bytes below 65536, the buffer after the call
  differs from the buffer before it only at offsets from \<open>i\<close> up to, and not
  including, the size, and the cursor on return is at least \<open>i\<close> and at most the size.
\<close>

theorem read_line_frame:
  assumes "unat index < unat sz"
    and "unat sz \<le> 65535 \<or> unat index + length usb < 65536"
  shows "unat index \<le> unat (rl_index (read_line buffer index sz usb))
    \<and> unat (rl_index (read_line buffer index sz usb)) \<le> unat sz
    \<and> (\<forall>j. j < unat index \<or> unat sz \<le> j \<longrightarrow>
          rl_buffer (read_line buffer index sz usb) j = buffer j)"
proof -
  have loop: "read_line buffer index sz usb = read_line_loop buffer index sz usb"
    using assms(1) by (simp add: read_line_def)
  have le: "unat index \<le> unat sz"
    using assms(1) by simp
  from assms(2) show ?thesis
  proof
    assume "unat sz \<le> 65535"
    then show ?thesis
      unfolding loop by (rule read_line_loop_frame [OF _ le])
  next
    assume "unat index + length usb < 65536"
    then show ?thesis
      unfolding loop by (rule read_line_loop_frame_short [OF _ le])
  qed
qed

theorem read_line_frame_witness:
  "unat (2 :: uint16_t) < unat (4 :: size_t)
   \<and> unat (2 :: uint16_t) \<le> unat (rl_index (read_line blank 2 4 [0x41, 0x42, 0x43]))
   \<and> unat (rl_index (read_line blank 2 4 [0x41, 0x42, 0x43])) \<le> unat (4 :: size_t)
   \<and> rl_buffer (read_line blank 2 4 [0x41, 0x42, 0x43]) 1 = blank 1
   \<and> rl_buffer (read_line blank 2 4 [0x41, 0x42, 0x43]) 4 = blank 4"
proof -
  have lt: "unat (2 :: uint16_t) < unat (4 :: size_t)"
    by simp
  have small: "unat (4 :: size_t) \<le> 65535"
    by simp
  show ?thesis
    using read_line_frame [OF lt disjI1 [OF small], of blank "[0x41, 0x42, 0x43]"]
    by simp
qed

text \<open>
  C6. A call to \<open>read_line\<close> with entry cursor \<open>i\<close> below the size is to write only
  at offsets from \<open>i\<close> up to, and not including, the size, and to return a cursor that
  is at least \<open>i\<close> and at most the size: the cursor never decreases within the call.
  The code does not do so for every call: at entry cursor 65535 with size 65537 and two
  bytes queued, the cursor goes from 65535 to 0, the second byte is written at offset 0,
  below the entry cursor, and the cursor returned is 1.
\<close>

theorem read_line_frame_wraps:
  "unat (65535 :: uint16_t) < unat (65537 :: size_t)
   \<and> unat (rl_index (read_line blank 65535 65537 [0x45, 0x46])) = 1
   \<and> rl_buffer (read_line blank 65535 65537 [0x45, 0x46]) 0 = 0x46
   \<and> blank 0 = 0"
  by (simp add: read_line_def read_line_loop_store read_line_loop_Nil is_eol_def LF_def CR_def
      blank_def)

section \<open>Properties of the xio singleton\<close>

subsection \<open>The integrity guard\<close>

text \<open>
  C7. \<open>xio_test_assertions\<close> returns OK if and only if \<open>magic_start\<close> and
  \<open>magic_end\<close> both equal the magic constant, and ASSERTION_FAILURE otherwise; it
  leaves the singleton as it is. After \<open>xio_init_assertions\<close> it returns OK; setting
  either sentinel to another value makes it return ASSERTION_FAILURE, and writing the
  constant back to both makes it return OK again.
\<close>

theorem xio_test_assertions_checks_sentinels:
  "(fst (xio_test_assertions MAGICNUM xio) = STAT_OK
      \<longleftrightarrow> magic_start xio = MAGICNUM \<and> magic_end xio = MAGICNUM)
   \<and> (fst (xio_test_assertions MAGICNUM xio) \<noteq> STAT_OK
      \<longrightarrow> fst (xio_test_assertions MAGICNUM xio) = STAT_XIO_ASSERTION_FAILURE)
   \<and> snd (xio_test_assertions MAGICNUM xio) = xio
   \<and> fst (xio_test_assertions MAGICNUM (xio_init_assertions MAGICNUM xio)) = STAT_OK
   \<and> (v \<noteq> MAGICNUM \<longrightarrow>
        fst (xio_test_assertions MAGICNUM
            ((xio_init_assertions MAGICNUM xio)\<lparr>magic_start := v\<rparr>))
          = STAT_XIO_ASSERTION_FAILURE
        \<and> fst (xio_test_assertions MAGICNUM
            ((xio_init_assertions MAGICNUM xio)\<lparr>magic_end := v\<rparr>))
          = STAT_XIO_ASSERTION_FAILURE)
   \<and> fst (xio_test_assertions MAGICNUM
        ((xio_init_assertions MAGICNUM xio)
           \<lparr>magic_start := v, magic_end := w\<rparr>
           \<lparr>magic_start := MAGICNUM, magic_end := MAGICNUM\<rparr>)) = STAT_OK"
  by (simp add: xio_test_assertions_def xio_init_assertions_def)

theorem xio_test_assertions_checks_sentinels_witness:
  "(0x0000 :: uint16_t) \<noteq> 0x12EF
   \<and> fst (xio_test_assertions 0x12EF (xio_zero 2)) = STAT_XIO_ASSERTION_FAILURE
   \<and> fst (xio_test_assertions 0x12EF (xio_init_assertions 0x12EF (xio_zero 2))) = STAT_OK
   \<and> fst (xio_test_assertions 0x12EF
        ((xio_init_assertions 0x12EF (xio_zero 2))\<lparr>magic_start := 0x0000\<rparr>))
       = STAT_XIO_ASSERTION_FAILURE
   \<and> fst (xio_test_assertions 0x12EF
        ((xio_init_assertions 0x12EF (xio_zero 2))\<lparr>magic_end := 0x0000\<rparr>))
       = STAT_XIO_ASSERTION_FAILURE"
  using xio_test_assertions_checks_sentinels [of "0x12EF" "xio_zero 2" "0x0000"]
  by (simp add: xio_zero_def)

subsection \<open>Connection notifications\<close>

lemma notifications_snoc:
  "notifications (ns @ [(dv, connected)]) xio = connection_callback dv connected (notifications ns xio)"
  by (induction ns arbitrary: xio) auto

text \<open>
  C8. For every sequence of connection notifications that holds at least one for the
  device \<open>dv\<close>, the \<open>next_state\<close> of \<open>dv\<close> afterwards is the value of the last
  notification for \<open>dv\<close> alone: CONNECTED when it reported connected, NOT_CONNECTED
  when it did not, however many notifications came before it.
\<close>

theorem notifications_last_wins:
  assumes "filter (\<lambda>n. fst n = dv) ns \<noteq> []"
  shows "next_state (xio_d (notifications ns xio) dv) =
    (if snd (last (filter (\<lambda>n. fst n = dv) ns)) then DEVICE_CONNECTED else DEVICE_NOT_CONNECTED)"
  using assms
proof (induction ns rule: rev_induct)
  case Nil
  then show ?case by simp
next
  case (snoc n ns)
  obtain dv' connected where n: "n = (dv', connected)"
    by (cases n)
  show ?case
  proof (cases "dv' = dv")
    case True
    then show ?thesis
      by (simp add: n notifications_snoc connection_callback_def)
  next
    case False
    with snoc.prems have "filter (\<lambda>n. fst n = dv) ns \<noteq> []"
      by (simp add: n)
    from snoc.IH [OF this] False show ?thesis
      by (simp add: n notifications_snoc connection_callback_def)
  qed
qed

theorem notifications_last_wins_witness:
  "filter (\<lambda>n. fst n = DEV_USB0)
      [(DEV_USB0, True), (DEV_USB1, True), (DEV_USB0, False), (DEV_USB1, False), (DEV_USB0, True)]
     \<noteq> []
   \<and> next_state (xio_d (notifications
        [(DEV_USB0, True), (DEV_USB1, True), (DEV_USB0, False), (DEV_USB1, False), (DEV_USB0, True)]
        (xio_zero 2)) DEV_USB0) = DEVICE_CONNECTED
   \<and> next_state (xio_d (notifications
        [(DEV_USB0, True), (DEV_USB1, True), (DEV_USB0, False), (DEV_USB1, False), (DEV_USB0, True)]
        (xio_zero 2)) DEV_USB1) = DEVICE_NOT_CONNECTED"
  using notifications_last_wins [of DEV_USB0
      "[(DEV_USB0, True), (DEV_USB1, True), (DEV_USB0, False), (DEV_USB1, False), (DEV_USB0, True)]"
      "xio_zero 2"]
    notifications_last_wins [of DEV_USB1
      "[(DEV_USB0, True), (DEV_USB1, True), (DEV_USB0, False), (DEV_USB1, False), (DEV_USB0, True)]"
      "xio_zero 2"]
  by simp

subsection \<open>The periodic callback\<close>

text \<open>
  C9. In every state of the singleton \<open>xio_callback\<close> returns OK and leaves the whole
  singleton unchanged, and so does any number of calls in a row: \<open>next_state\<close> is never
  cleared and \<open>current_state\<close> never updated, and a pending connection change stays
  pending.
\<close>

theorem xio_callback_idle:
  "xio_callback xio = (STAT_OK, xio) \<and> ((\<lambda>x. snd (xio_callback x)) ^^ n) xio = xio"
proof
  show ok: "xio_callback xio = (STAT_OK, xio)" for xio
    by (simp add: xio_callback_def)
  show "((\<lambda>x. snd (xio_callback x)) ^^ n) xio = xio"
    by (induction n) (simp_all add: ok)
qed

text \<open>A change notified for \<open>DEV_USB0\<close> is still pending after three callbacks.\<close>

theorem xio_callback_idle_witness:
  "next_state (xio_d (((\<lambda>x. snd (xio_callback x)) ^^ 3)
      (connection_callback DEV_USB0 True (xio_zero 2))) DEV_USB0) = DEVICE_CONNECTED
   \<and> current_state (xio_d (((\<lambda>x. snd (xio_callback x)) ^^ 3)
      (connection_callback DEV_USB0 True (xio_zero 2))) DEV_USB0) = DEVICE_UNCHANGED"
  using xio_callback_idle [of "connection_callback DEV_USB0 True (xio_zero 2)" 3]
  by (simp add: connection_callback_def xio_zero_def)

subsection \<open>The SPI setting\<close>

text \<open>
  C10 (amended). For every value passed to \<open>xio_set_spi\<close> the call returns OK and
  stores the value, converted to \<open>uint8_t\<close>, in \<open>spi_state\<close>, leaving the rest of the
  singleton as it is; when the comparison \<open>fp_EQ\<close> of the source matches the value with
  neither the enable nor the disable constant, no pin changes its mode, and the store is
  the only effect.
\<close>

theorem xio_set_spi_effect:
  "fst (xio_set_spi to_uint8 fp_EQ SPI_ENABLE SPI_DISABLE nv_value xio pins) = STAT_OK
   \<and> fst (snd (xio_set_spi to_uint8 fp_EQ SPI_ENABLE SPI_DISABLE nv_value xio pins))
       = xio\<lparr>spi_state := to_uint8 nv_value\<rparr>
   \<and> (\<not> fp_EQ nv_value SPI_ENABLE \<and> \<not> fp_EQ nv_value SPI_DISABLE \<longrightarrow>
        snd (snd (xio_set_spi to_uint8 fp_EQ SPI_ENABLE SPI_DISABLE nv_value xio pins)) = pins)"
  by (simp add: xio_set_spi_def Let_def)

text \<open>The value 7 is stored as 7 and leaves the pins in output mode.\<close>

theorem xio_set_spi_effect_witness:
  "\<not> fp_EQ_float (7, 0) (1, 0) \<and> \<not> fp_EQ_float (7, 0) (0, 0)
   \<and> fst (xio_set_spi float_to_uint8 fp_EQ_float (1, 0) (0, 0) (7, 0) (xio_zero 2)
        (pins_all kOutput)) = STAT_OK
   \<and> spi_state (fst (snd (xio_set_spi float_to_uint8 fp_EQ_float (1, 0) (0, 0) (7, 0)
        (xio_zero 2) (pins_all kOutput)))) = 7
   \<and> snd (snd (xio_set_spi float_to_uint8 fp_EQ_float (1, 0) (0, 0) (7, 0) (xio_zero 2)
        (pins_all kOutput))) = pins_all kOutput"
  using xio_set_spi_effect [of float_to_uint8 fp_EQ_float "(1, 0)" "(0, 0)" "(7, 0)"
      "xio_zero 2" "pins_all kOutput"]
  by simp

text \<open>
  C10 as stated fails twice. The value 2.5 is not stored verbatim: \<open>spi_state\<close> becomes
  2. The value \<open>1 + 1 / 2 ^ 20\<close> equals neither 1 nor 0, yet \<open>fp_EQ\<close> matches it with the
  enable constant and the three pins go from input to output mode.
\<close>

theorem xio_set_spi_effect_counterexample:
  "spi_state (fst (snd (xio_set_spi float_to_uint8 fp_EQ_float (1, 0) (0, 0) (5, 1)
      (xio_zero 2) (pins_all kInput)))) = 2
   \<and> \<not> float_eq (2, 0) (5, 1)
   \<and> \<not> float_eq (1048577, 20) (1, 0)
   \<and> \<not> float_eq (1048577, 20) (0, 0)
   \<and> snd (snd (xio_set_spi float_to_uint8 fp_EQ_float (1, 0) (0, 0) (1048577, 20)
        (xio_zero 2) (pins_all kInput))) = pins_all kOutput
   \<and> pins_all kOutput \<noteq> pins_all kInput"
  by (simp add: xio_set_spi_def Let_def pins_all_def)

end
